theory Spec2Isabelle
  imports Main "HOL-Library.AList"
begin

section \<open>Room registry scripts of the cost calculation spreadsheet\<close>

text \<open>
  A shallow embedding of \<^verbatim>\<open>src/scripts.ts\<close>: the validation of new rooms
  (\<^verbatim>\<open>createRoomPairs\<close>), the three use cases' dashboard steps
  (\<^verbatim>\<open>addNewRoomsToDashboard\<close>, \<^verbatim>\<open>renameInDashboard\<close>,
  \<^verbatim>\<open>deleteInDashboard\<close>), the grouping of row positions
  (\<^verbatim>\<open>groupAdjacentNumbers\<close>) and the interactive collection of new names
  (\<^verbatim>\<open>requestNewRoomNames\<close>).

  The spreadsheet host (Google Apps Script) is not part of the repository. Its state is a
  record; the host calls the scripts make are functions on that record. Host assumptions:
  the named ranges and the dashboard sheet exist (the source asserts so with type casts),
  cell values of the ranges read are strings, the ranges requested lie inside the modelled
  column, and the host raises no exception of its own (it would for a sheet name that is
  taken or a range without rows). Strings are byte lists; the white space
  \<^verbatim>\<open>trim\<close> removes is the ASCII white space.
\<close>

subsection \<open>JavaScript values and library functions\<close>

datatype js_error = Error string | TypeError string

fun message :: "js_error \<Rightarrow> string" where
  "message (Error m) = m"
| "message (TypeError m) = m"

definition newline :: string where
  "newline = [CHR 0x0A]"

definition isWhiteSpace :: "char \<Rightarrow> bool" where
  "isWhiteSpace c \<longleftrightarrow> c \<in> {CHR 0x09, CHR 0x0A, CHR 0x0B, CHR 0x0C, CHR 0x0D, CHR '' ''}"

text \<open>\<^verbatim>\<open>String.prototype.trim\<close>: white space removed at both ends.\<close>

definition trim :: "string \<Rightarrow> string" where
  "trim s = rev (dropWhile isWhiteSpace (rev (dropWhile isWhiteSpace s)))"

text \<open>\<^verbatim>\<open>Array.prototype.findIndex\<close> and \<^verbatim>\<open>indexOf\<close>: the first index, or -1.\<close>

fun findIndex_from :: "('a \<Rightarrow> bool) \<Rightarrow> 'a list \<Rightarrow> int \<Rightarrow> int" where
  "findIndex_from p [] k = - 1"
| "findIndex_from p (x # xs) k = (if p x then k else findIndex_from p xs (k + 1))"

definition findIndex :: "('a \<Rightarrow> bool) \<Rightarrow> 'a list \<Rightarrow> int" where
  "findIndex p xs = findIndex_from p xs 0"

definition indexOf :: "'a list \<Rightarrow> 'a \<Rightarrow> int" where
  "indexOf arr x = findIndex (\<lambda>y. y = x) arr"

text \<open>\<^verbatim>\<open>Array.prototype.join\<close>.\<close>

fun join :: "string \<Rightarrow> string list \<Rightarrow> string" where
  "join sep [] = []"
| "join sep [x] = x"
| "join sep (x # y # ys) = x @ sep @ join sep (y # ys)"

text \<open>A number inside a template literal: its decimal digits.\<close>

fun digit :: "nat \<Rightarrow> char" where
  "digit n = char_of (48 + n)"

fun showNat :: "nat \<Rightarrow> string" where
  "showNat n = (if n < 10 then [digit n] else showNat (n div 10) @ [digit (n mod 10)])"

declare showNat.simps [simp del]

text \<open>
  A JavaScript \<^verbatim>\<open>Map\<close> keeps its keys in insertion order and \<^verbatim>\<open>set\<close> overwrites
  the value of a key in place: an association list with \<^const>\<open>AList.update\<close>.
\<close>

type_synonym js_map = "(string \<times> string) list"

definition map_has :: "js_map \<Rightarrow> string \<Rightarrow> bool" where
  "map_has m k \<longleftrightarrow> k \<in> fst ` set m"

definition map_values :: "js_map \<Rightarrow> string list" where
  "map_values m = map snd m"

subsection \<open>The spreadsheet\<close>

definition RENOMATE_YELLOW :: string where
  "RENOMATE_YELLOW = ''#fcd241''"

definition BUDGETING_TYPES :: "(string \<times> string) list" where
  "BUDGETING_TYPES = [(''Enkel (rekommenderad)'', ''(enkel)''), (''Avancerad'', ''(avancerad)'')]"

text \<open>\<^verbatim>\<open>${BUDGETING_TYPES[type]}\<close>: a missing key renders as \<^verbatim>\<open>undefined\<close>.\<close>

definition budgetingSuffix :: "string \<Rightarrow> string" where
  "budgetingSuffix type =
     (case map_of BUDGETING_TYPES type of None \<Rightarrow> ''undefined'' | Some suffix \<Rightarrow> suffix)"

record RichTextValue =
  getText :: string
  getLinkUrl :: "string option"
  bold :: "bool option"

definition newRichTextValue :: RichTextValue where
  "newRichTextValue = \<lparr>getText = [], getLinkUrl = None, bold = None\<rparr>"

record Sheet =
  getName :: string
  getSheetId :: nat
  tabColor :: "string option"
  hidden :: bool

datatype UiEvent = Toast string | Alert string | Prompt string

text \<open>
  \<open>dashboard\<close> is column A of the dashboard sheet from row 1 to its last row; a cell
  is \<open>None\<close> where the host has no rich text for it (its value is not text).
  \<open>materialRow\<close> and \<open>sumRow\<close> are the rows of the two named boundary ranges,
  \<open>addRooms\<close> and \<open>configExistingRooms\<close> the values of the two input ranges.
\<close>

record Spreadsheet =
  sheets :: "Sheet list"
  nextSheetId :: nat
  dashboard :: "RichTextValue option list"
  materialRow :: nat
  sumRow :: nat
  addRooms :: "(string \<times> string \<times> string) list"
  configExistingRooms :: "(bool \<times> string) list"
  uiLog :: "UiEvent list"

definition getSheetByName :: "Spreadsheet \<Rightarrow> string \<Rightarrow> Sheet option" where
  "getSheetByName ss name = find (\<lambda>sheet. getName sheet = name) (sheets ss)"

definition toast :: "string \<Rightarrow> Spreadsheet \<Rightarrow> Spreadsheet" where
  "toast msg ss = ss\<lparr>uiLog := uiLog ss @ [Toast msg]\<rparr>"

definition alert :: "string \<Rightarrow> Spreadsheet \<Rightarrow> Spreadsheet" where
  "alert msg ss = ss\<lparr>uiLog := uiLog ss @ [Alert msg]\<rparr>"

text \<open>The value \<^verbatim>\<open>getValues\<close> reads from a cell of column A, when it is a string.\<close>

definition cellValue :: "RichTextValue option \<Rightarrow> string option" where
  "cellValue cell = map_option getText cell"

text \<open>
  Host row operations, rows counted from 1. A named boundary row below an inserted or
  deleted block moves with it.
\<close>

definition insertRowsAt :: "nat \<Rightarrow> nat \<Rightarrow> 'a \<Rightarrow> 'a list \<Rightarrow> 'a list" where
  "insertRowsAt rowIndex numRows blank rows =
     take (rowIndex - 1) rows @ replicate numRows blank @ drop (rowIndex - 1) rows"

definition deleteRowsAt :: "int \<Rightarrow> int \<Rightarrow> 'a list \<Rightarrow> 'a list" where
  "deleteRowsAt rowPosition howMany rows =
     take (nat (rowPosition - 1)) rows @ drop (nat (rowPosition - 1 + howMany)) rows"

definition insertRows :: "nat \<Rightarrow> nat \<Rightarrow> Spreadsheet \<Rightarrow> Spreadsheet" where
  "insertRows rowIndex numRows ss =
     ss\<lparr>dashboard := insertRowsAt rowIndex numRows (Some newRichTextValue) (dashboard ss),
        materialRow := (if rowIndex \<le> materialRow ss then materialRow ss + numRows
                        else materialRow ss),
        sumRow := (if rowIndex \<le> sumRow ss then sumRow ss + numRows else sumRow ss)\<rparr>"

definition rowAfterDelete :: "int \<Rightarrow> int \<Rightarrow> nat \<Rightarrow> nat" where
  "rowAfterDelete rowPosition howMany r =
     (if rowPosition + howMany \<le> int r then nat (int r - howMany) else r)"

definition deleteRows :: "int \<Rightarrow> int \<Rightarrow> Spreadsheet \<Rightarrow> Spreadsheet" where
  "deleteRows rowPosition howMany ss =
     ss\<lparr>dashboard := deleteRowsAt rowPosition howMany (dashboard ss),
        materialRow := rowAfterDelete rowPosition howMany (materialRow ss),
        sumRow := rowAfterDelete rowPosition howMany (sumRow ss)\<rparr>"

text \<open>\<^verbatim>\<open>getRange(row, 1, numRows, 1)\<close> read and written as rich text.\<close>

definition getRichTextValues :: "nat \<Rightarrow> nat \<Rightarrow> Spreadsheet \<Rightarrow> RichTextValue option list" where
  "getRichTextValues row numRows ss = take numRows (drop (row - 1) (dashboard ss))"

definition setRichTextValuesAt ::
  "nat \<Rightarrow> RichTextValue list \<Rightarrow> RichTextValue option list \<Rightarrow> RichTextValue option list" where
  "setRichTextValuesAt row vals rows =
     take (row - 1) rows @ map Some vals @ drop (row - 1 + length vals) rows"

definition setRichTextValues :: "nat \<Rightarrow> RichTextValue list \<Rightarrow> Spreadsheet \<Rightarrow> Spreadsheet" where
  "setRichTextValues row vals ss = ss\<lparr>dashboard := setRichTextValuesAt row vals (dashboard ss)\<rparr>"

subsection \<open>Add rooms\<close>

type_synonym NewRoomRow = "string \<times> string \<times> string"

text \<open>
  The callback of \<^verbatim>\<open>newRooms.map\<close> in \<^verbatim>\<open>createRoomPairs\<close>, run over the rows
  in order: \<open>index\<close> is the callback's index and \<open>error\<close> the string the callback
  appends to.
\<close>

fun createRoomPairs_map ::
  "NewRoomRow list \<Rightarrow> string list \<Rightarrow> nat \<Rightarrow> string \<Rightarrow> string \<times> (string \<times> string) list" where
  "createRoomPairs_map [] sheetNames index error = (error, [])"
| "createRoomPairs_map ((inputRoomName, template, type) # rest) sheetNames index error =
     (let roomName = trim inputRoomName;
          error = (if roomName = [] then
                     error @ ''Namn saknas till rum '' @ showNat (index + 1) @ newline
                   else error);
          error = (if template = [] then
                     error @ ''Mall saknas till rum '' @ showNat (index + 1) @ newline
                   else error);
          error = (if type = [] then
                     error @ ''Budgeteringsalternativ saknas till rum '' @ showNat (index + 1)
                       @ newline
                   else error);
          error = (if roomName \<in> set sheetNames then
                     error @ ''Rum '' @ roomName @ '' finns redan'' @ newline
                   else error);
          (error, pairs) = createRoomPairs_map rest sheetNames (index + 1) error
      in (error, (roomName, template @ '' '' @ budgetingSuffix type) # pairs))"

text \<open>\<^verbatim>\<open>arr.filter((roomName, index, arr) => arr.indexOf(roomName) !== index)\<close>.\<close>

definition duplicatesOf :: "string list \<Rightarrow> string list" where
  "duplicatesOf arr =
     map snd (filter (\<lambda>(index, roomName). indexOf arr roomName \<noteq> int index) (enumerate 0 arr))"

definition createRoomPairs ::
  "NewRoomRow list \<Rightarrow> string list \<Rightarrow> js_error + (string \<times> string) list" where
  "createRoomPairs newRooms sheetNames =
     (let (error, nameTemplatePairs) = createRoomPairs_map newRooms sheetNames 0 [];
          duplicates = duplicatesOf (map fst nameTemplatePairs);
          error = (if length duplicates > 0 then
                     error @ ''Rumnamn upprepas: '' @ join '', '' duplicates @ newline
                   else error)
      in if error \<noteq> [] then Inl (Error error) else Inr nameTemplatePairs)"

text \<open>
  The variant of \<^verbatim>\<open>createRoomPairs\<close> in \<^verbatim>\<open>src/unnamed/part_001\<close> (lines 35-50):
  the same function without the \<^verbatim>\<open>trim\<close>.
\<close>

fun createRoomPairs_map_part_001 ::
  "NewRoomRow list \<Rightarrow> string list \<Rightarrow> nat \<Rightarrow> string \<Rightarrow> string \<times> (string \<times> string) list" where
  "createRoomPairs_map_part_001 [] sheetNames index error = (error, [])"
| "createRoomPairs_map_part_001 ((roomName, template, type) # rest) sheetNames index error =
     (let error = (if roomName = [] then
                     error @ ''Namn saknas till rum '' @ showNat (index + 1) @ newline
                   else error);
          error = (if template = [] then
                     error @ ''Mall saknas till rum '' @ showNat (index + 1) @ newline
                   else error);
          error = (if type = [] then
                     error @ ''Budgeteringsalternativ saknas till rum '' @ showNat (index + 1)
                       @ newline
                   else error);
          error = (if roomName \<in> set sheetNames then
                     error @ ''Rum '' @ roomName @ '' finns redan'' @ newline
                   else error);
          (error, pairs) = createRoomPairs_map_part_001 rest sheetNames (index + 1) error
      in (error, (roomName, template @ '' '' @ budgetingSuffix type) # pairs))"

definition createRoomPairs_part_001 ::
  "NewRoomRow list \<Rightarrow> string list \<Rightarrow> js_error + (string \<times> string) list" where
  "createRoomPairs_part_001 newRooms sheetNames =
     (let (error, roomPairs) = createRoomPairs_map_part_001 newRooms sheetNames 0 [];
          duplicates = duplicatesOf (map fst roomPairs);
          error = (if length duplicates > 0 then
                     error @ ''Rumnamn upprepas: '' @ join '', '' duplicates @ newline
                   else error)
      in if error \<noteq> [] then Inl (Error error) else Inr roomPairs)"

text \<open>
  \<^verbatim>\<open>createNewRoomSheets\<close>: a template that does not exist is skipped by the optional
  chaining; the copy gets the room's name, the yellow tab and is shown.
\<close>

fun createNewRoomSheets :: "(string \<times> string) list \<Rightarrow> Spreadsheet \<Rightarrow> Spreadsheet" where
  "createNewRoomSheets [] ss = ss"
| "createNewRoomSheets ((roomName, template) # rest) ss =
     createNewRoomSheets rest
       (case getSheetByName ss template of
          None \<Rightarrow> ss
        | Some _ \<Rightarrow>
            ss\<lparr>sheets := sheets ss @
                  [\<lparr>getName = roomName, getSheetId = nextSheetId ss,
                    tabColor = Some RENOMATE_YELLOW, hidden = False\<rparr>],
               nextSheetId := nextSheetId ss + 1\<rparr>)"

definition addNewRoomsToDashboard :: "string list \<Rightarrow> Spreadsheet \<Rightarrow> Spreadsheet" where
  "addNewRoomsToDashboard roomNames ss =
     (let insertRow = sumRow ss;
          richTextValues =
            map (\<lambda>roomName.
                  \<lparr>getText = roomName,
                   getLinkUrl = Some (''#gid='' @
                     (case getSheetByName ss roomName of
                        None \<Rightarrow> ''undefined''
                      | Some sheet \<Rightarrow> showNat (getSheetId sheet))),
                   bold = Some False\<rparr>) roomNames
      in setRichTextValues insertRow richTextValues
           (insertRows insertRow (length roomNames) ss))"

definition clearContent :: "Spreadsheet \<Rightarrow> Spreadsheet" where
  "clearContent ss = ss\<lparr>addRooms := map (\<lambda>_. ([], [], [])) (addRooms ss)\<rparr>"

text \<open>\<^verbatim>\<open>getValues().filter((roomRow) => roomRow.join('') !== '')\<close>.\<close>

definition nonBlankRows :: "NewRoomRow list \<Rightarrow> NewRoomRow list" where
  "nonBlankRows vals = filter (\<lambda>(a, b, c). a @ b @ c \<noteq> []) vals"

definition addNewRooms :: "Spreadsheet \<Rightarrow> Spreadsheet" where
  "addNewRooms ss =
     (let newRoomRows = nonBlankRows (addRooms ss);
          sheetNames = map getName (sheets ss)
      in case createRoomPairs newRoomRows sheetNames of
           Inl err \<Rightarrow> alert (message err) ss
         | Inr nameTemplatePairs \<Rightarrow>
             if length nameTemplatePairs = 0 then
               toast (''Det finns inga nya rum att l'' @ [CHR 0xC3, CHR 0xA4] @ ''gga till'') ss
             else
               (let newRooms = map fst nameTemplatePairs
                in clearContent
                     (addNewRoomsToDashboard newRooms
                        (createNewRoomSheets nameTemplatePairs ss))))"

subsection \<open>Rename rooms\<close>

definition getSelectedRooms :: "(bool \<times> string) list \<Rightarrow> string list" where
  "getSelectedRooms vals = map snd (filter fst vals)"

text \<open>
  The operator's answers to the prompts, in order: the button pressed and the text typed.
  The loop of \<^verbatim>\<open>requestNewRoomNames\<close> asks until a name is accepted, so it needs an
  answer per prompt: where the answers run out the prompt is still open and the function
  has not returned, which is the result \<open>None\<close>. A returned result is the map, or
  \<open>None\<close> for the \<^verbatim>\<open>null\<close> of a cancelled prompt, with the messages shown.
\<close>

datatype Button = OK | CANCEL | CLOSE

text \<open>The question of the prompt; the letter after the d is an o with diaeresis.\<close>

definition promptText :: "string \<Rightarrow> string" where
  "promptText oldName =
     ''Vad vill du d'' @ [CHR 0xC3, CHR 0xB6] @ ''pa om '' @ oldName @ '' till?''"

type_synonym PromptResponse = "Button \<times> string"

fun requestNewRoomNames_loop ::
  "string list \<Rightarrow> string list \<Rightarrow> js_map \<Rightarrow> PromptResponse list \<Rightarrow> UiEvent list \<Rightarrow>
   (js_map option \<times> UiEvent list) option" where
  "requestNewRoomNames_loop [] sheetNames renameMap responses ui = Some (Some renameMap, ui)"
| "requestNewRoomNames_loop (oldName # rest) sheetNames renameMap [] ui = None"
| "requestNewRoomNames_loop (oldName # rest) sheetNames renameMap
       ((button, responseText) # responses) ui =
     (let ui = ui @ [Prompt (promptText oldName)]
      in if button \<noteq> OK then Some (None, ui)
         else
           (let newRoomName = trim responseText
            in if newRoomName = [] then
                 requestNewRoomNames_loop (oldName # rest) sheetNames renameMap responses
                   (ui @ [Alert (''Namn saknas till rum '' @ oldName)])
               else if newRoomName \<in> set sheetNames then
                 requestNewRoomNames_loop (oldName # rest) sheetNames renameMap responses
                   (ui @ [Alert (''Rum '' @ newRoomName @ '' finns redan'')])
               else if newRoomName \<in> set (map_values renameMap) then
                 requestNewRoomNames_loop (oldName # rest) sheetNames renameMap responses
                   (ui @ [Alert (''Du har redan angett: '' @ newRoomName)])
               else
                 requestNewRoomNames_loop rest sheetNames
                   (AList.update oldName newRoomName renameMap) responses ui))"

definition requestNewRoomNames ::
  "string list \<Rightarrow> string list \<Rightarrow> PromptResponse list \<Rightarrow> (js_map option \<times> UiEvent list) option" where
  "requestNewRoomNames oldRoomNames sheetNames responses =
     requestNewRoomNames_loop oldRoomNames sheetNames [] responses []"

fun setName :: "string \<Rightarrow> string \<Rightarrow> Sheet list \<Rightarrow> Sheet list" where
  "setName oldName newName [] = []"
| "setName oldName newName (sheet # rest) =
     (if getName sheet = oldName then sheet\<lparr>getName := newName\<rparr> # rest
      else sheet # setName oldName newName rest)"

fun renameSheets :: "js_map \<Rightarrow> Spreadsheet \<Rightarrow> Spreadsheet" where
  "renameSheets [] ss = ss"
| "renameSheets ((oldName, newName) # rest) ss =
     renameSheets rest (ss\<lparr>sheets := setName oldName newName (sheets ss)\<rparr>)"

text \<open>The callback of \<^verbatim>\<open>getRichTextValues().map\<close> in \<^verbatim>\<open>renameInDashboard\<close>.\<close>

definition renameCell :: "js_map \<Rightarrow> RichTextValue option \<Rightarrow> RichTextValue" where
  "renameCell renameMap room =
     (case room of
        None \<Rightarrow> newRichTextValue
      | Some r \<Rightarrow>
          (let roomText = getText r
           in if \<not> map_has renameMap roomText then r
              else \<lparr>getText = the (map_of renameMap roomText), getLinkUrl = getLinkUrl r,
                    bold = None\<rparr>))"

definition renameInDashboard :: "js_map \<Rightarrow> Spreadsheet \<Rightarrow> Spreadsheet" where
  "renameInDashboard renameMap ss =
     (let newRichText =
            map (renameCell renameMap)
              (getRichTextValues (materialRow ss + 1) (sumRow ss - materialRow ss - 1) ss)
      in setRichTextValues (materialRow ss + 1) newRichText ss)"

definition uncheck :: "Spreadsheet \<Rightarrow> Spreadsheet" where
  "uncheck ss = ss\<lparr>configExistingRooms := map (\<lambda>(checkbox, roomName). (False, roomName))
                                             (configExistingRooms ss)\<rparr>"

definition renameRooms :: "PromptResponse list \<Rightarrow> Spreadsheet \<Rightarrow> Spreadsheet option" where
  "renameRooms responses ss =
     (let selectedRooms = getSelectedRooms (configExistingRooms ss)
      in if length selectedRooms = 0 then Some (toast ''Inga rum valda'' ss)
         else
           (let sheetNames = map getName (sheets ss)
            in case requestNewRoomNames selectedRooms sheetNames responses of
                 None \<Rightarrow> None
               | Some (None, ui) \<Rightarrow> Some (ss\<lparr>uiLog := uiLog ss @ ui\<rparr>)
               | Some (Some renamedRooms, ui) \<Rightarrow>
                   Some (uncheck (renameInDashboard renamedRooms
                           (renameSheets renamedRooms (ss\<lparr>uiLog := uiLog ss @ ui\<rparr>))))))"

subsection \<open>Delete rooms\<close>

text \<open>
  The loop of \<^verbatim>\<open>groupAdjacentNumbers\<close> from index \<open>i\<close> on. Adding to the count of
  the last group raises a \<^verbatim>\<open>TypeError\<close> where there is no last group.
\<close>

function groupAdjacentNumbers_loop ::
  "int list \<Rightarrow> nat \<Rightarrow> (int \<times> int) list \<Rightarrow> js_error + (int \<times> int) list" where
  "groupAdjacentNumbers_loop numbers i groups =
     (if i < length numbers then
        (if i = 0 \<or> numbers ! i \<noteq> numbers ! (i - 1) + 1
         then groupAdjacentNumbers_loop numbers (i + 1) (groups @ [(numbers ! i, 1)])
         else (case rev groups of
                 [] \<Rightarrow> Inl (TypeError ''Cannot read properties of undefined'')
               | (start, count) # _ \<Rightarrow>
                   groupAdjacentNumbers_loop numbers (i + 1)
                     (butlast groups @ [(start, count + 1)])))
      else Inr groups)"
  by pat_completeness auto
termination
  by (relation "measure (\<lambda>(numbers, i, groups). length numbers - i)") auto

declare groupAdjacentNumbers_loop.simps [simp del]

definition groupAdjacentNumbers :: "int list \<Rightarrow> js_error + (int \<times> int) list" where
  "groupAdjacentNumbers numbers = map_sum id rev (groupAdjacentNumbers_loop numbers 0 [])"

text \<open>The rows a group \<open>(start, count)\<close> stands for, and those of a list of groups.\<close>

fun expandGroup :: "int \<times> int \<Rightarrow> int list" where
  "expandGroup (start, count) = [start .. start + count - 1]"

definition expandGroups :: "(int \<times> int) list \<Rightarrow> int list" where
  "expandGroups groups = concat (map expandGroup groups)"

text \<open>The row positions \<^verbatim>\<open>deleteInDashboard\<close> computes, and its loop of deletions.\<close>

definition deleteIndexes :: "string option list \<Rightarrow> string list \<Rightarrow> int list" where
  "deleteIndexes firstColumnValues roomNames =
     filter (\<lambda>index. index \<noteq> 0)
       (map (\<lambda>roomName. findIndex (\<lambda>row. row = Some roomName) firstColumnValues + 1) roomNames)"

fun deleteGroups :: "(int \<times> int) list \<Rightarrow> Spreadsheet \<Rightarrow> Spreadsheet" where
  "deleteGroups [] ss = ss"
| "deleteGroups ((position, numRows) # rest) ss = deleteGroups rest (deleteRows position numRows ss)"

definition deleteInDashboard :: "string list \<Rightarrow> Spreadsheet \<Rightarrow> js_error + Spreadsheet" where
  "deleteInDashboard roomNames ss =
     (let firstColumnValues = map cellValue (dashboard ss)
      in case groupAdjacentNumbers (deleteIndexes firstColumnValues roomNames) of
           Inl err \<Rightarrow> Inl err
         | Inr groups \<Rightarrow> Inr (deleteGroups groups ss))"

subsection \<open>Notions used in the proofs\<close>

text \<open>
  The invariant of the loop of \<^verbatim>\<open>groupAdjacentNumbers\<close> before index \<open>i\<close>: the groups
  stand for the first \<open>i\<close> numbers, no group is empty, and the last group ends at the
  previous number.
\<close>

definition loop_inv :: "int list \<Rightarrow> nat \<Rightarrow> (int \<times> int) list \<Rightarrow> bool" where
  "loop_inv numbers i groups \<longleftrightarrow>
     i \<le> length numbers \<and> expandGroups groups = take i numbers \<and>
     (\<forall>g \<in> set groups. 1 \<le> snd g) \<and>
     (0 < i \<longrightarrow> groups \<noteq> [] \<and> fst (last groups) + snd (last groups) - 1 = numbers ! (i - 1))"

text \<open>
  The rows left of a column whose first row has number \<open>k\<close> when the rows at the
  positions \<open>idx\<close> are taken out.
\<close>

fun rowsWithout :: "int \<Rightarrow> int list \<Rightarrow> 'a list \<Rightarrow> 'a list" where
  "rowsWithout k idx [] = []"
| "rowsWithout k idx (r # rows) =
     (if k \<in> set idx then rowsWithout (k + 1) idx rows else r # rowsWithout (k + 1) idx rows)"

text \<open>
  The validation as the specification words it: the messages of one entry, tagged with its
  1-based position \<open>n\<close>, the line for the names repeated within the batch, all messages
  of a batch in order, and the text with one message per line.
\<close>

definition spec_entryErrors :: "nat \<Rightarrow> NewRoomRow \<Rightarrow> string list \<Rightarrow> string list" where
  "spec_entryErrors n entry existingNames =
     (case entry of (name, template, kind) \<Rightarrow>
        (if trim name = [] then [''Namn saknas till rum '' @ showNat n] else []) @
        (if template = [] then [''Mall saknas till rum '' @ showNat n] else []) @
        (if kind = [] then [''Budgeteringsalternativ saknas till rum '' @ showNat n] else []) @
        (if trim name \<in> set existingNames then [''Rum '' @ trim name @ '' finns redan'']
         else []))"

fun spec_entriesErrors :: "nat \<Rightarrow> NewRoomRow list \<Rightarrow> string list \<Rightarrow> string list" where
  "spec_entriesErrors n [] existingNames = []"
| "spec_entriesErrors n (entry # entries) existingNames =
     spec_entryErrors n entry existingNames @ spec_entriesErrors (n + 1) entries existingNames"

definition spec_duplicateErrors :: "NewRoomRow list \<Rightarrow> string list" where
  "spec_duplicateErrors entries =
     (let duplicates = duplicatesOf (map (\<lambda>(name, template, kind). trim name) entries)
      in if duplicates = [] then [] else [''Rumnamn upprepas: '' @ join '', '' duplicates])"

definition spec_validationErrors :: "NewRoomRow list \<Rightarrow> string list \<Rightarrow> string list" where
  "spec_validationErrors entries existingNames =
     spec_entriesErrors 1 entries existingNames @ spec_duplicateErrors entries"

definition spec_normalized :: "NewRoomRow list \<Rightarrow> (string \<times> string) list" where
  "spec_normalized entries =
     map (\<lambda>(name, template, kind). (trim name, template @ '' '' @ budgetingSuffix kind)) entries"

definition unlines :: "string list \<Rightarrow> string" where
  "unlines msgs = concat (map (\<lambda>m. m @ newline) msgs)"

text \<open>
  Example spreadsheets: a dashboard whose column A holds the rooms Kitchen, Den, Bath, Hall
  and Attic in rows 5 to 9, between the material row 4 and the sum row 10; the same with
  the text Bath also in row 1, above the band; and three selected rooms to rename.
\<close>

definition plainText :: "string \<Rightarrow> RichTextValue option" where
  "plainText t = Some \<lparr>getText = t, getLinkUrl = None, bold = None\<rparr>"

definition exampleDashboard :: Spreadsheet where
  "exampleDashboard =
     \<lparr>sheets = [], nextSheetId = 0,
      dashboard = map plainText [''Projekt'', ''Rum'', [], ''Material'', ''Kitchen'', ''Den'',
                                 ''Bath'', ''Hall'', ''Attic'', ''Summa''],
      materialRow = 4, sumRow = 10, addRooms = [], configExistingRooms = [], uiLog = []\<rparr>"

definition bathAboveBand :: Spreadsheet where
  "bathAboveBand =
     \<lparr>sheets = [], nextSheetId = 0,
      dashboard = map plainText [''Bath'', ''Rum'', [], ''Material'', ''Kitchen'', ''Den'',
                                 ''Bath'', ''Hall'', ''Attic'', ''Summa''],
      materialRow = 4, sumRow = 10, addRooms = [], configExistingRooms = [], uiLog = []\<rparr>"

definition roomSheet :: "string \<Rightarrow> nat \<Rightarrow> Sheet" where
  "roomSheet name sheetId =
     \<lparr>getName = name, getSheetId = sheetId, tabColor = Some RENOMATE_YELLOW, hidden = False\<rparr>"

definition linkedRoom :: "string \<Rightarrow> string \<Rightarrow> RichTextValue option" where
  "linkedRoom t url = Some \<lparr>getText = t, getLinkUrl = Some url, bold = Some False\<rparr>"

definition threeRooms :: Spreadsheet where
  "threeRooms =
     \<lparr>sheets = [roomSheet ''Dashboard'' 0, roomSheet ''Kitchen'' 1, roomSheet ''Den'' 2,
                roomSheet ''Bath'' 3],
      nextSheetId = 4,
      dashboard = [plainText ''Material'', linkedRoom ''Kitchen'' ''#gid=1'',
                   linkedRoom ''Den'' ''#gid=2'', linkedRoom ''Bath'' ''#gid=3'',
                   plainText ''Summa''],
      materialRow = 1, sumRow = 5, addRooms = [],
      configExistingRooms = [(True, ''Kitchen''), (True, ''Den''), (True, ''Bath'')],
      uiLog = []\<rparr>"

text \<open>
  The three rooms with a template sheet and a batch to add: one that fails validation (no
  template for the first entry, the second name taken) and one that passes; and a selected
  room Ghost that has no sheet.
\<close>

definition invalidBatch :: Spreadsheet where
  "invalidBatch =
     threeRooms\<lparr>sheets := sheets threeRooms @ [roomSheet ''Rum (avancerad)'' 9],
                addRooms := [('' Hall '', [], ''Avancerad''), ([], [], []),
                             (''Kitchen'', ''Rum'', ''Avancerad'')]\<rparr>"

definition validBatch :: Spreadsheet where
  "validBatch =
     threeRooms\<lparr>sheets := sheets threeRooms @ [roomSheet ''Rum (avancerad)'' 9],
                addRooms := [('' Hall '', ''Rum'', ''Avancerad''), ([], [], [])]\<rparr>"

definition ghostRoom :: Spreadsheet where
  "ghostRoom = threeRooms\<lparr>configExistingRooms := [(True, ''Ghost'')]\<rparr>"

text \<open>
  The three rooms with one more row in the band, row 5, whose cell holds a number, so that
  the host has no rich text value for it.
\<close>

definition numberInBand :: Spreadsheet where
  "numberInBand =
     threeRooms\<lparr>dashboard := [plainText ''Material'', linkedRoom ''Kitchen'' ''#gid=1'',
                               linkedRoom ''Den'' ''#gid=2'', linkedRoom ''Bath'' ''#gid=3'',
                               None, plainText ''Summa''],
                sumRow := 6\<rparr>"

text \<open>
  The three parts of the dashboard column: the rows down to the material row, the band
  strictly between the material row and the sum row, and the rows from the sum row on.
\<close>

definition aboveBand :: "Spreadsheet \<Rightarrow> RichTextValue option list" where
  "aboveBand ss = take (materialRow ss) (dashboard ss)"

definition band :: "Spreadsheet \<Rightarrow> RichTextValue option list" where
  "band ss = take (sumRow ss - 1 - materialRow ss) (drop (materialRow ss) (dashboard ss))"

definition belowBand :: "Spreadsheet \<Rightarrow> RichTextValue option list" where
  "belowBand ss = drop (sumRow ss - 1) (dashboard ss)"

section \<open>Grouping adjacent row positions\<close>

lemma expandGroups_snoc: "expandGroups (gs @ [g]) = expandGroups gs @ expandGroup g"
  by (simp add: expandGroups_def)

lemma expandGroup_extend:
  "1 \<le> c \<Longrightarrow> expandGroup (s, c + 1) = expandGroup (s, c) @ [s + c]"
  using upto_rec2 [of s "s + c"] by simp

lemma loop_inv_push:
  assumes "loop_inv numbers i groups" "i < length numbers"
  shows "loop_inv numbers (i + 1) (groups @ [(numbers ! i, 1)])"
  using assms by (auto simp: loop_inv_def expandGroups_snoc take_Suc_conv_app_nth)

lemma loop_inv_extend:
  assumes inv: "loop_inv numbers i groups" and lt: "i < length numbers" and pos: "0 < i"
    and adj: "numbers ! i = numbers ! (i - 1) + 1"
    and rv: "rev groups = (s, c) # rest"
  shows "loop_inv numbers (i + 1) (butlast groups @ [(s, c + 1)])"
proof -
  from rv have split: "groups = rev rest @ [(s, c)]"
    by (metis rev.simps(2) rev_rev_ident)
  then have bl: "butlast groups = rev rest"
    by (metis butlast_snoc)
  from inv split have cnt: "1 \<le> c"
    by (auto simp: loop_inv_def)
  from inv pos split have lst: "s + c - 1 = numbers ! (i - 1)"
    by (auto simp: loop_inv_def)
  from inv split have ex: "expandGroups (rev rest) @ expandGroup (s, c) = take i numbers"
    by (metis expandGroups_snoc loop_inv_def)
  have "expandGroups (rev rest @ [(s, c + 1)]) = take i numbers @ [s + c]"
    using ex cnt by (simp add: expandGroups_snoc expandGroup_extend del: expandGroup.simps)
  moreover have "s + c = numbers ! i"
    using lst adj by simp
  moreover have "\<forall>g \<in> set (rev rest). 1 \<le> snd g"
    using inv split by (auto simp: loop_inv_def)
  ultimately show ?thesis
    using lt cnt bl by (simp add: loop_inv_def take_Suc_conv_app_nth)
qed

lemma loop_total:
  "loop_inv numbers i groups \<Longrightarrow>
   \<exists>gs. groupAdjacentNumbers_loop numbers i groups = Inr gs \<and> loop_inv numbers (length numbers) gs"
proof (induction numbers i groups rule: groupAdjacentNumbers_loop.induct)
  case (1 numbers i groups)
  show ?case
  proof (cases "i < length numbers")
    case False
    with "1.prems" have "i = length numbers" by (simp add: loop_inv_def)
    with "1.prems" show ?thesis by (simp add: groupAdjacentNumbers_loop.simps)
  next
    case True
    show ?thesis
    proof (cases "i = 0 \<or> numbers ! i \<noteq> numbers ! (i - 1) + 1")
      case new: True
      from "1.IH"(1) [OF True new loop_inv_push [OF "1.prems" True]] True new
      show ?thesis by (subst groupAdjacentNumbers_loop.simps) simp
    next
      case ext: False
      then have pos: "0 < i" and adj: "numbers ! i = numbers ! (i - 1) + 1" by auto
      from "1.prems" pos have "rev groups \<noteq> []" by (simp add: loop_inv_def)
      then obtain s c rest where rv: "rev groups = (s, c) # rest"
        by (cases "rev groups") auto
      from "1.IH"(2) [OF True ext rv refl loop_inv_extend [OF "1.prems" True pos adj rv]] True ext rv
      show ?thesis by (subst groupAdjacentNumbers_loop.simps) simp
    qed
  qed
qed

lemma loop_inv_init: "loop_inv numbers 0 []"
  by (simp add: loop_inv_def expandGroups_def)

lemma groupAdjacentNumbers_expand:
  "\<exists>gs. groupAdjacentNumbers numbers = Inr gs \<and> expandGroups (rev gs) = numbers \<and> (\<forall>g \<in> set gs. 1 \<le> snd g)"
  using loop_total [OF loop_inv_init, of numbers]
  by (auto simp: groupAdjacentNumbers_def loop_inv_def)

lemma fst_in_expandGroup: "1 \<le> snd g \<Longrightarrow> fst g \<in> set (expandGroup g)"
  by (cases g) simp

lemma starts_ascending:
  "sorted_wrt (<) (expandGroups gs) \<Longrightarrow> \<forall>g \<in> set gs. 1 \<le> snd g \<Longrightarrow> sorted_wrt (<) (map fst gs)"
proof (induction gs)
  case Nil
  show ?case by simp
next
  case (Cons g gs)
  from Cons.prems have srt: "sorted_wrt (<) (expandGroups gs)"
    and sep: "\<forall>x \<in> set (expandGroup g). \<forall>y \<in> set (expandGroups gs). x < y"
    by (auto simp: expandGroups_def sorted_wrt_append simp del: expandGroup.simps)
  have "fst g < fst h" if "h \<in> set gs" for h
  proof -
    from that Cons.prems(2) have "fst h \<in> set (expandGroups gs)"
      using fst_in_expandGroup [of h] by (auto simp: expandGroups_def simp del: expandGroup.simps)
    moreover have "fst g \<in> set (expandGroup g)"
      using Cons.prems(2) fst_in_expandGroup [of g] by simp
    ultimately show ?thesis using sep by blast
  qed
  with Cons.IH [OF srt] Cons.prems(2) show ?case by simp
qed

text \<open>
  Claim C1. For every strictly ascending list of integers \<^verbatim>\<open>groupAdjacentNumbers\<close>
  returns groups \<open>(start, count)\<close> whose runs, concatenated from the last group to the
  first, are the input list, so the runs hold exactly the input's numbers; every count is
  at least 1 and the starts strictly decrease along the output. The empty list gives the
  empty list, \<open>[5]\<close> gives \<open>[(5, 1)]\<close> and \<open>[2, 3, 4, 7, 9, 10]\<close> gives
  \<open>[(9, 2), (7, 1), (2, 3)]\<close>.
\<close>

theorem C1_groupAdjacentNumbers:
  "(sorted_wrt (<) numbers \<longrightarrow>
      (\<exists>groups. groupAdjacentNumbers numbers = Inr groups \<and>
         expandGroups (rev groups) = numbers \<and>
         set (expandGroups groups) = set numbers \<and>
         (\<forall>g \<in> set groups. 1 \<le> snd g) \<and>
         sorted_wrt (>) (map fst groups))) \<and>
   groupAdjacentNumbers [] = Inr [] \<and>
   groupAdjacentNumbers [5] = Inr [(5, 1)] \<and>
   groupAdjacentNumbers [2, 3, 4, 7, 9, 10] = Inr [(9, 2), (7, 1), (2, 3)]"
proof -
  have general: "\<exists>groups. groupAdjacentNumbers numbers = Inr groups \<and>
         expandGroups (rev groups) = numbers \<and>
         set (expandGroups groups) = set numbers \<and>
         (\<forall>g \<in> set groups. 1 \<le> snd g) \<and>
         sorted_wrt (>) (map fst groups)" if asc: "sorted_wrt (<) numbers"
  proof -
    from groupAdjacentNumbers_expand [of numbers] obtain groups where
      g: "groupAdjacentNumbers numbers = Inr groups" and e: "expandGroups (rev groups) = numbers"
      and c: "\<forall>g \<in> set groups. 1 \<le> snd g" by blast
    have "set (expandGroups groups) = set (expandGroups (rev groups))"
      by (simp add: expandGroups_def)
    then have s: "set (expandGroups groups) = set numbers" using e by simp
    from starts_ascending [of "rev groups"] asc e c
    have "sorted_wrt (<) (map fst (rev groups))" by simp
    then have "sorted_wrt (>) (map fst groups)"
      by (simp add: rev_map [symmetric] sorted_wrt_rev)
    with g e s c show ?thesis by blast
  qed
  have "groupAdjacentNumbers [] = Inr []"
    by (simp add: groupAdjacentNumbers_def groupAdjacentNumbers_loop.simps)
  moreover have "groupAdjacentNumbers [5] = Inr [(5, 1)]"
    by (simp add: groupAdjacentNumbers_def groupAdjacentNumbers_loop.simps)
  moreover have "groupAdjacentNumbers [2, 3, 4, 7, 9, 10] = Inr [(9, 2), (7, 1), (2, 3)]"
    by (simp add: groupAdjacentNumbers_def groupAdjacentNumbers_loop.simps)
  ultimately show ?thesis using general by blast
qed

theorem C1_groupAdjacentNumbers_witness:
  "sorted_wrt (<) [2, 3, 4, 7, 9, 10 :: int] \<and>
   groupAdjacentNumbers [2, 3, 4, 7, 9, 10] = Inr [(9, 2), (7, 1), (2, 3)] \<and>
   expandGroups (rev [(9, 2), (7, 1), (2, 3)]) = [2, 3, 4, 7, 9, 10] \<and>
   sorted_wrt (>) (map fst [(9, 2), (7, 1), (2 :: int, 3 :: int)])"
  using C1_groupAdjacentNumbers [of "[2, 3, 4, 7, 9, 10]"] by auto

section \<open>Deleting rows of the dashboard\<close>

lemma findIndex_from_eq:
  "findIndex_from p xs k =
     (if \<exists>x \<in> set xs. p x then k + int (length (takeWhile (\<lambda>x. \<not> p x) xs)) else - 1)"
  by (induction xs arbitrary: k) auto

lemma takeWhile_shorter:
  "\<exists>x \<in> set xs. p x \<Longrightarrow> length (takeWhile (\<lambda>x. \<not> p x) xs) < length xs"
  by (induction xs) auto

lemma findIndex_bounds:
  "findIndex p xs + 1 \<noteq> 0 \<Longrightarrow> 1 \<le> findIndex p xs + 1 \<and> findIndex p xs + 1 \<le> int (length xs)"
  using takeWhile_shorter [of xs p]
  by (auto simp: findIndex_def findIndex_from_eq split: if_splits)

lemma deleteIndexes_bounds:
  "p \<in> set (deleteIndexes firstColumnValues roomNames) \<Longrightarrow>
     1 \<le> p \<and> p \<le> int (length firstColumnValues)"
  using findIndex_bounds by (fastforce simp: deleteIndexes_def)

text \<open>
  The positions \<^verbatim>\<open>deleteInDashboard\<close> computes: for each name, in the order of the
  names, the row of its first match in the column; a name without a match gives none.
\<close>

lemma deleteIndexes_first_match:
  "deleteIndexes firstColumnValues roomNames =
     concat (map (\<lambda>roomName.
                    if Some roomName \<in> set firstColumnValues
                    then [int (length (takeWhile (\<lambda>row. row \<noteq> Some roomName)
                                         firstColumnValues)) + 1]
                    else [])
                 roomNames)"
  by (induction roomNames) (auto simp: deleteIndexes_def findIndex_def findIndex_from_eq)

lemma rowsWithout_append:
  "rowsWithout k idx (xs @ ys) = rowsWithout k idx xs @ rowsWithout (k + int (length xs)) idx ys"
  by (induction xs arbitrary: k) (auto simp: algebra_simps)

lemma rowsWithout_cong:
  "(\<And>j. k \<le> j \<Longrightarrow> j < k + int (length xs) \<Longrightarrow> j \<in> set idx \<longleftrightarrow> j \<in> set idx') \<Longrightarrow>
     rowsWithout k idx xs = rowsWithout k idx' xs"
proof (induction xs arbitrary: k)
  case Nil
  show ?case by simp
next
  case (Cons x xs)
  have "rowsWithout (k + 1) idx xs = rowsWithout (k + 1) idx' xs"
    by (rule Cons.IH) (use Cons.prems in auto)
  moreover have "k \<in> set idx \<longleftrightarrow> k \<in> set idx'"
    using Cons.prems by simp
  ultimately show ?case by simp
qed

lemma rowsWithout_none:
  "(\<And>j. k \<le> j \<Longrightarrow> j < k + int (length xs) \<Longrightarrow> j \<notin> set idx) \<Longrightarrow> rowsWithout k idx xs = xs"
proof (induction xs arbitrary: k)
  case Nil
  show ?case by simp
next
  case (Cons x xs)
  have "rowsWithout (k + 1) idx xs = xs"
    by (rule Cons.IH) (use Cons.prems in auto)
  moreover have "k \<notin> set idx"
    using Cons.prems by simp
  ultimately show ?case by simp
qed

lemma rowsWithout_all:
  "(\<And>j. k \<le> j \<Longrightarrow> j < k + int (length xs) \<Longrightarrow> j \<in> set idx) \<Longrightarrow> rowsWithout k idx xs = []"
proof (induction xs arbitrary: k)
  case Nil
  show ?case by simp
next
  case (Cons x xs)
  have "rowsWithout (k + 1) idx xs = []"
    by (rule Cons.IH) (use Cons.prems in auto)
  moreover have "k \<in> set idx"
    using Cons.prems by simp
  ultimately show ?case by simp
qed

text \<open>Deleting the block of rows \<open>p .. p + n - 1\<close>, all above the positions \<open>lower\<close>.\<close>

lemma rowsWithout_deleteRowsAt:
  assumes p: "1 \<le> p" "p - 1 \<le> int (length rows)" and n: "1 \<le> n"
    and low: "\<And>x. x \<in> set lower \<Longrightarrow> x < p"
  shows "rowsWithout 1 lower (deleteRowsAt p n rows) = rowsWithout 1 (lower @ expandGroup (p, n)) rows"
proof -
  define a where "a = nat (p - 1)"
  define m where "m = nat n"
  have a: "a \<le> length rows" "int a = p - 1" and m: "int m = n"
    using p n by (auto simp: a_def m_def)
  have del: "deleteRowsAt p n rows = take a rows @ drop (a + m) rows"
    using p n by (simp add: deleteRowsAt_def a_def m_def nat_add_distrib)
  have split: "rows = take a rows @ take m (drop a rows) @ drop (a + m) rows"
    by (metis append_take_drop_id drop_drop add.commute)
  have la: "length (take a rows) = a" using a by simp
  have l1: "rowsWithout 1 lower (take a rows) = rowsWithout 1 (lower @ expandGroup (p, n)) (take a rows)"
    by (rule rowsWithout_cong) (use a la in auto)
  have l2: "rowsWithout (1 + int a) lower (drop (a + m) rows) = drop (a + m) rows"
    by (rule rowsWithout_none) (use a low in fastforce)
  have l3: "rowsWithout (1 + int a) (lower @ expandGroup (p, n)) (take m (drop a rows)) = []"
    by (rule rowsWithout_all) (use a m in auto)
  have l4: "rowsWithout (1 + int a + int (length (take m (drop a rows)))) (lower @ expandGroup (p, n))
              (drop (a + m) rows) = drop (a + m) rows"
  proof (cases "a + m \<le> length rows")
    case True
    then have "length (take m (drop a rows)) = m" by simp
    then show ?thesis
      using a m low by (intro rowsWithout_none) fastforce
  next
    case False
    then show ?thesis by simp
  qed
  have "rowsWithout 1 (lower @ expandGroup (p, n)) rows =
          rowsWithout 1 (lower @ expandGroup (p, n)) (take a rows @ take m (drop a rows) @ drop (a + m) rows)"
    using split by simp
  also have "\<dots> = rowsWithout 1 lower (take a rows) @ drop (a + m) rows"
    unfolding rowsWithout_append la using l1 l3 l4 by simp
  finally show ?thesis
    unfolding del rowsWithout_append la using l2 by simp
qed


lemma dashboard_deleteRows [simp]:
  "dashboard (deleteRows p n ss) = deleteRowsAt p n (dashboard ss)"
  by (simp add: deleteRows_def)

lemma length_deleteRowsAt:
  "1 \<le> p \<Longrightarrow> p - 1 \<le> int (length rows) \<Longrightarrow> 0 \<le> n \<Longrightarrow> p - 1 \<le> int (length (deleteRowsAt p n rows))"
  by (auto simp: deleteRowsAt_def)

lemma expandGroups_Cons: "expandGroups (g # gs) = expandGroup g @ expandGroups gs"
  by (simp add: expandGroups_def)

lemma set_expandGroups_rev: "set (expandGroups (rev gs)) = set (expandGroups gs)"
  by (simp add: expandGroups_def)

text \<open>Deleting group by group, highest group first, takes out exactly the groups' rows.\<close>

lemma deleteGroups_rowsWithout:
  assumes "sorted_wrt (<) (expandGroups (rev groups))"
    and "\<forall>g \<in> set groups. 1 \<le> snd g"
    and "\<forall>x \<in> set (expandGroups groups). 1 \<le> x \<and> x \<le> int (length (dashboard ss))"
  shows "dashboard (deleteGroups groups ss) = rowsWithout 1 (expandGroups (rev groups)) (dashboard ss)"
  using assms
proof (induction groups arbitrary: ss)
  case Nil
  show ?case by (simp add: expandGroups_def rowsWithout_none)
next
  case (Cons g groups)
  obtain p n where g: "g = (p, n)" by (cases g)
  from Cons.prems(2) g have n: "1 \<le> n" by simp
  then have pin: "p \<in> set (expandGroup (p, n))" by simp
  from Cons.prems(1) g have srt: "sorted_wrt (<) (expandGroups (rev groups))"
    and low: "\<forall>x \<in> set (expandGroups (rev groups)). \<forall>y \<in> set (expandGroup (p, n)). x < y"
    by (auto simp: expandGroups_snoc sorted_wrt_append simp del: expandGroup.simps)
  from low pin have lowp: "\<And>x. x \<in> set (expandGroups (rev groups)) \<Longrightarrow> x < p" by blast
  from Cons.prems(3) g pin have "1 \<le> p \<and> p \<le> int (length (dashboard ss))"
    by (simp add: expandGroups_Cons del: expandGroup.simps)
  then have p: "1 \<le> p" "p - 1 \<le> int (length (dashboard ss))" by auto
  have len: "p - 1 \<le> int (length (dashboard (deleteRows p n ss)))"
    using length_deleteRowsAt [OF p] n by simp
  have bnd: "\<forall>x \<in> set (expandGroups groups). 1 \<le> x \<and> x \<le> int (length (dashboard (deleteRows p n ss)))"
  proof
    fix x assume x: "x \<in> set (expandGroups groups)"
    then have "x < p" using lowp set_expandGroups_rev by blast
    moreover have "1 \<le> x" using x Cons.prems(3) by (simp add: expandGroups_Cons del: expandGroup.simps)
    ultimately show "1 \<le> x \<and> x \<le> int (length (dashboard (deleteRows p n ss)))" using len by linarith
  qed
  have "dashboard (deleteGroups (g # groups) ss) = dashboard (deleteGroups groups (deleteRows p n ss))"
    using g by simp
  also have "\<dots> = rowsWithout 1 (expandGroups (rev groups)) (deleteRowsAt p n (dashboard ss))"
    using Cons.IH [OF srt _ bnd] Cons.prems(2) by simp
  also have "\<dots> = rowsWithout 1 (expandGroups (rev groups) @ expandGroup (p, n)) (dashboard ss)"
    by (rule rowsWithout_deleteRowsAt [OF p n lowp])
  finally show ?case using g by (simp add: expandGroups_snoc del: expandGroup.simps)
qed

text \<open>
  Claim C2. \<^verbatim>\<open>deleteInDashboard\<close> resolves each name to the position of its first
  match in column A and drops the names without a match, but it hands the positions to
  \<^verbatim>\<open>groupAdjacentNumbers\<close> in the order of the names, neither sorted nor deduplicated.
  On the example dashboard (Kitchen, Den, Bath, Hall, Attic in rows 5 to 9) the names
  Bath, Hall give the single deletion \<open>(7, 2)\<close>; the names Hall, Bath give the positions
  \<open>[8, 7]\<close> and the deletions \<open>(7, 1)\<close> then \<open>(8, 1)\<close>, in ascending order of start: row 7
  (Bath) is deleted, then the row that has become row 8 (Attic), and Hall stays.
\<close>

theorem C2_deleteInDashboard_unsorted:
  "deleteIndexes (map cellValue (dashboard exampleDashboard)) [''Bath'', ''Hall''] = [7, 8] \<and>
   groupAdjacentNumbers [7, 8] = Inr [(7, 2)] \<and>
   deleteIndexes (map cellValue (dashboard exampleDashboard)) [''Hall'', ''Bath''] = [8, 7] \<and>
   groupAdjacentNumbers [8, 7] = Inr [(7, 1), (8, 1)] \<and>
   map_sum id (\<lambda>ss. map cellValue (dashboard ss))
       (deleteInDashboard [''Hall'', ''Bath''] exampleDashboard) =
     Inr (map Some [''Projekt'', ''Rum'', [], ''Material'', ''Kitchen'', ''Den'', ''Hall'',
                    ''Summa''])"
  by (simp add: deleteInDashboard_def exampleDashboard_def deleteIndexes_def findIndex_def
      cellValue_def plainText_def groupAdjacentNumbers_def groupAdjacentNumbers_loop.simps
      deleteRows_def deleteRowsAt_def rowAfterDelete_def)

section \<open>The band between the material row and the sum row\<close>

lemma column_parts:
  assumes lt: "materialRow ss < sumRow ss"
  shows "dashboard ss = aboveBand ss @ band ss @ belowBand ss"
proof -
  have "sumRow ss - 1 - materialRow ss + materialRow ss = sumRow ss - 1"
    using lt by simp
  then have "drop (sumRow ss - 1 - materialRow ss) (drop (materialRow ss) (dashboard ss)) =
               drop (sumRow ss - 1) (dashboard ss)"
    by (simp only: drop_drop)
  then have "band ss @ belowBand ss = drop (materialRow ss) (dashboard ss)"
    unfolding band_def belowBand_def by (metis append_take_drop_id)
  then show ?thesis
    unfolding aboveBand_def by simp
qed

lemma renameInDashboard_parts:
  assumes lt: "materialRow ss < sumRow ss"
  shows "dashboard (renameInDashboard renameMap ss) =
           aboveBand ss @ map (\<lambda>room. Some (renameCell renameMap room)) (band ss) @ belowBand ss"
proof -
  let ?m = "materialRow ss" and ?s = "sumRow ss" and ?d = "dashboard ss"
  let ?n = "length (band ss)"
  have "drop (?m + ?n) ?d = drop (?s - 1) ?d"
  proof (cases "?s - 1 \<le> length ?d")
    case True
    with lt have "?n = ?s - 1 - ?m" by (simp add: band_def)
    with lt show ?thesis by simp
  next
    case False
    then have "?n = length ?d - ?m" by (auto simp: band_def)
    with False show ?thesis by simp
  qed
  then show ?thesis
    by (simp add: renameInDashboard_def setRichTextValues_def setRichTextValuesAt_def
        getRichTextValues_def aboveBand_def band_def belowBand_def comp_def)
qed

lemma deleteInDashboard_parts:
  assumes lt: "materialRow ss < sumRow ss"
    and asc: "sorted_wrt (<) (deleteIndexes (map cellValue (dashboard ss)) roomNames)"
    and inb: "\<forall>p \<in> set (deleteIndexes (map cellValue (dashboard ss)) roomNames).
                int (materialRow ss) < p \<and> p < int (sumRow ss)"
  shows "\<exists>ss'. deleteInDashboard roomNames ss = Inr ss' \<and>
           dashboard ss' =
             aboveBand ss @
             rowsWithout (int (materialRow ss) + 1)
               (deleteIndexes (map cellValue (dashboard ss)) roomNames) (band ss) @
             belowBand ss"
proof -
  let ?idx = "deleteIndexes (map cellValue (dashboard ss)) roomNames"
  let ?m = "materialRow ss" and ?s = "sumRow ss" and ?d = "dashboard ss"
  from groupAdjacentNumbers_expand [of ?idx] obtain groups where
    g: "groupAdjacentNumbers ?idx = Inr groups" and e: "expandGroups (rev groups) = ?idx"
    and c: "\<forall>g \<in> set groups. 1 \<le> snd g" by blast
  have bnd: "\<forall>x \<in> set (expandGroups groups). 1 \<le> x \<and> x \<le> int (length ?d)"
    using deleteIndexes_bounds [of _ "map cellValue ?d" roomNames] e set_expandGroups_rev [of groups]
    by auto
  have res: "deleteInDashboard roomNames ss = Inr (deleteGroups groups ss)"
    using g by (simp add: deleteInDashboard_def)
  have all: "dashboard (deleteGroups groups ss) = rowsWithout 1 ?idx ?d"
    using deleteGroups_rowsWithout [OF _ c bnd] asc e by simp
  have p1: "rowsWithout 1 ?idx (aboveBand ss) = aboveBand ss"
    by (rule rowsWithout_none) (use inb in \<open>fastforce simp: aboveBand_def\<close>)
  have p2: "rowsWithout (1 + int (length (aboveBand ss))) ?idx (band ss) =
              rowsWithout (int ?m + 1) ?idx (band ss)"
  proof (cases "?m \<le> length ?d")
    case True
    then show ?thesis by (simp add: aboveBand_def add.commute)
  next
    case False
    then show ?thesis by (simp add: band_def)
  qed
  have p3: "rowsWithout (1 + int (length (aboveBand ss)) + int (length (band ss))) ?idx (belowBand ss)
              = belowBand ss"
  proof (cases "?s - 1 \<le> length ?d")
    case True
    with lt have "length (aboveBand ss) = ?m" "length (band ss) = ?s - 1 - ?m"
      by (auto simp: aboveBand_def band_def)
    with lt inb show ?thesis by (intro rowsWithout_none) fastforce
  next
    case False
    then show ?thesis by (simp add: belowBand_def)
  qed
  have "rowsWithout 1 ?idx ?d = rowsWithout 1 ?idx (aboveBand ss @ band ss @ belowBand ss)"
    using column_parts [OF lt] by simp
  also have "\<dots> = aboveBand ss @ rowsWithout (int ?m + 1) ?idx (band ss) @ belowBand ss"
    unfolding rowsWithout_append using p1 p2 p3 by (simp add: add.assoc)
  finally show ?thesis using res all by simp
qed

text \<open>
  Adding rooms puts the new rows between the band and the sum row; the sum row moves down.
\<close>

lemma setRichTextValuesAt_inserted:
  "k \<le> length d \<Longrightarrow> length vals = n \<Longrightarrow>
     setRichTextValuesAt (k + 1) vals (take k d @ replicate n blank @ drop k d) =
       take k d @ map Some vals @ drop k d"
  by (simp add: setRichTextValuesAt_def)

lemma addNewRoomsToDashboard_parts:
  assumes lt: "materialRow ss < sumRow ss" and len: "sumRow ss \<le> length (dashboard ss) + 1"
  shows "\<exists>newRows. length newRows = length roomNames \<and>
           dashboard (addNewRoomsToDashboard roomNames ss) =
             aboveBand ss @ band ss @ newRows @ belowBand ss \<and>
           sumRow (addNewRoomsToDashboard roomNames ss) = sumRow ss + length roomNames"
proof -
  define vals where "vals = map (\<lambda>roomName.
       \<lparr>getText = roomName,
        getLinkUrl = Some (''#gid='' @
          (case getSheetByName ss roomName of
             None \<Rightarrow> ''undefined''
           | Some sheet \<Rightarrow> showNat (getSheetId sheet))),
        bold = Some False\<rparr>) roomNames"
  define d where "d = dashboard ss"
  define k where "k = sumRow ss - 1"
  have s: "sumRow ss = k + 1" and k: "k \<le> length d"
    using lt len by (auto simp: k_def d_def)
  have n: "length vals = length roomNames"
    by (simp add: vals_def)
  have "dashboard (addNewRoomsToDashboard roomNames ss) =
          setRichTextValuesAt (k + 1) vals
            (take k d @ replicate (length roomNames) (Some newRichTextValue) @ drop k d)"
    unfolding addNewRoomsToDashboard_def Let_def vals_def [symmetric] s
    by (simp add: setRichTextValues_def insertRows_def insertRowsAt_def d_def)
  also have "\<dots> = take k d @ map Some vals @ drop k d"
    by (rule setRichTextValuesAt_inserted [OF k n])
  also have "take k d = aboveBand ss @ band ss"
  proof -
    have "(aboveBand ss @ band ss) @ drop k d = take k d @ drop k d"
      using column_parts [OF lt] by (simp add: belowBand_def k_def d_def)
    then show ?thesis
      by (simp only: append_same_eq)
  qed
  finally have "dashboard (addNewRoomsToDashboard roomNames ss) =
      aboveBand ss @ band ss @ map Some vals @ belowBand ss"
    by (simp add: belowBand_def k_def d_def)
  moreover have "sumRow (addNewRoomsToDashboard roomNames ss) = sumRow ss + length roomNames"
    by (simp add: addNewRoomsToDashboard_def setRichTextValues_def insertRows_def Let_def)
  ultimately show ?thesis using n by auto
qed

text \<open>
  Claim C3, as stated, fails for deletions: \<^verbatim>\<open>deleteInDashboard\<close> searches the whole of
  column A, so a selected name that also stands above the band has its first match there.
  With the material row 4, the sum row 10 and the text Bath in rows 1 and 7, deleting Bath
  removes row 1.
\<close>

theorem C3_delete_outside_band_counterexample:
  "materialRow bathAboveBand = 4 \<and> sumRow bathAboveBand = 10 \<and>
   map cellValue (dashboard bathAboveBand) =
     map Some [''Bath'', ''Rum'', [], ''Material'', ''Kitchen'', ''Den'', ''Bath'', ''Hall'',
               ''Attic'', ''Summa''] \<and>
   map_sum id (\<lambda>ss. map cellValue (dashboard ss)) (deleteInDashboard [''Bath''] bathAboveBand) =
     Inr (map Some [''Rum'', [], ''Material'', ''Kitchen'', ''Den'', ''Bath'', ''Hall'', ''Attic'',
                    ''Summa''])"
  by (simp add: deleteInDashboard_def bathAboveBand_def deleteIndexes_def findIndex_def
      cellValue_def plainText_def groupAdjacentNumbers_def groupAdjacentNumbers_loop.simps
      deleteRows_def deleteRowsAt_def rowAfterDelete_def)

text \<open>
  Claim C3, amended. With the material row above the sum row, a batch of renames rewrites
  the cells of the band only: the rows down to the material row and the rows from the sum
  row on are the same after it. A batch of deletions whose names have their first matches
  in column A inside the band, at strictly ascending positions, removes exactly the rows
  at those positions, all in the band, and leaves the rows outside the band in place.
\<close>

theorem C3_band_amended:
  "materialRow ss < sumRow ss \<Longrightarrow>
     dashboard (renameInDashboard renameMap ss) =
       aboveBand ss @ map (\<lambda>room. Some (renameCell renameMap room)) (band ss) @ belowBand ss \<and>
     (sorted_wrt (<) (deleteIndexes (map cellValue (dashboard ss)) roomNames) \<and>
      (\<forall>p \<in> set (deleteIndexes (map cellValue (dashboard ss)) roomNames).
          int (materialRow ss) < p \<and> p < int (sumRow ss)) \<longrightarrow>
      (\<exists>ss'. deleteInDashboard roomNames ss = Inr ss' \<and>
         dashboard ss' =
           aboveBand ss @
           rowsWithout (int (materialRow ss) + 1)
             (deleteIndexes (map cellValue (dashboard ss)) roomNames) (band ss) @
           belowBand ss))"
  using renameInDashboard_parts deleteInDashboard_parts by blast

theorem C3_band_amended_witness:
  "materialRow exampleDashboard < sumRow exampleDashboard \<and>
   deleteIndexes (map cellValue (dashboard exampleDashboard)) [''Bath'', ''Hall''] = [7, 8] \<and>
   map cellValue (dashboard (renameInDashboard [(''Den'', ''Study'')] exampleDashboard)) =
     map Some [''Projekt'', ''Rum'', [], ''Material'', ''Kitchen'', ''Study'', ''Bath'', ''Hall'',
               ''Attic'', ''Summa''] \<and>
   (\<exists>ss'. deleteInDashboard [''Bath'', ''Hall''] exampleDashboard = Inr ss' \<and>
      map cellValue (dashboard ss') =
        map Some [''Projekt'', ''Rum'', [], ''Material'', ''Kitchen'', ''Den'', ''Attic'',
                  ''Summa''])"
  using C3_band_amended [of exampleDashboard "[(''Den'', ''Study'')]" "[''Bath'', ''Hall'']"]
  by (auto simp: exampleDashboard_def deleteIndexes_def findIndex_def cellValue_def plainText_def
      aboveBand_def band_def belowBand_def renameCell_def map_has_def)

section \<open>Relabelling the dashboard\<close>

lemma length_renameInDashboard:
  "length (dashboard (renameInDashboard renameMap ss)) = length (dashboard ss)"
  by (auto simp: renameInDashboard_def setRichTextValues_def setRichTextValuesAt_def
      getRichTextValues_def)

lemma nth_renameInDashboard:
  assumes "materialRow ss < row" "row < sumRow ss" "row \<le> length (dashboard ss)"
  shows "dashboard (renameInDashboard renameMap ss) ! (row - 1) =
           Some (renameCell renameMap (dashboard ss ! (row - 1)))"
proof -
  define m where "m = materialRow ss"
  define d where "d = dashboard ss"
  define cells where "cells = take (sumRow ss - m - 1) (drop m d)"
  define k where "k = row - 1 - m"
  have row: "row - 1 = m + k" and k: "k < length cells" and m: "length (take m d) = m"
    using assms by (auto simp: m_def d_def cells_def k_def)
  have "m \<le> length d"
    using assms by (simp add: m_def d_def)
  then have cell: "cells ! k = d ! (m + k)"
    using k by (simp add: cells_def)
  have "dashboard (renameInDashboard renameMap ss) =
          take m d @ map Some (map (renameCell renameMap) cells) @
          drop (m + length cells) d"
    by (simp add: renameInDashboard_def setRichTextValues_def setRichTextValuesAt_def
        getRichTextValues_def m_def d_def cells_def)
  then have "dashboard (renameInDashboard renameMap ss) ! (m + k) =
          (map Some (map (renameCell renameMap) cells) @ drop (m + length cells) d) ! k"
    using m by (simp add: nth_append)
  also have "\<dots> = Some (renameCell renameMap (cells ! k))"
    using k by (simp add: nth_append)
  finally show ?thesis
    using cell row by (simp add: d_def)
qed

lemma map_has_map_of: "map_has renameMap k \<longleftrightarrow> map_of renameMap k \<noteq> None"
  by (simp add: map_has_def map_of_eq_None_iff)

text \<open>
  Claim C4, as stated, fails for a cell of the band for which the host has no rich text
  value (a cell that holds a number): the callback has a branch of its own for it and
  writes an empty rich text value, whatever the rename map. Row 5 of the example lies in
  the band (material row 1, sum row 6) and has no rich text value; relabelling with the
  empty map, or with a map for Kitchen, puts the empty rich text value there.
\<close>

theorem C4_cell_without_rich_text_counterexample:
  "materialRow numberInBand = 1 \<and> sumRow numberInBand = 6 \<and>
   dashboard numberInBand ! (5 - 1) = None \<and>
   dashboard (renameInDashboard [] numberInBand) ! (5 - 1) = Some newRichTextValue \<and>
   dashboard (renameInDashboard [(''Kitchen'', ''Den'')] numberInBand) ! (5 - 1) =
     Some \<lparr>getText = [], getLinkUrl = None, bold = None\<rparr>"
  by (simp add: numberInBand_def threeRooms_def renameInDashboard_def getRichTextValues_def
      setRichTextValues_def setRichTextValuesAt_def renameCell_def map_has_def
      newRichTextValue_def plainText_def linkedRoom_def)

text \<open>
  Claim C4, amended. Relabelling keeps the number of rows and the two boundary rows, and
  writes into every row of the band the image of its cell under the callback. For a cell
  with a rich text value: where its text is a key of the rename map the new value has the
  mapped name as text and the cell's own link target; where its text is no key the new
  value is the cell's value itself. A cell for which the host has no rich text value gets
  an empty rich text value.
\<close>

theorem C4_relabel_cells:
  "length (dashboard (renameInDashboard renameMap ss)) = length (dashboard ss) \<and>
   materialRow (renameInDashboard renameMap ss) = materialRow ss \<and>
   sumRow (renameInDashboard renameMap ss) = sumRow ss \<and>
   (materialRow ss < row \<and> row < sumRow ss \<and> row \<le> length (dashboard ss) \<longrightarrow>
      dashboard (renameInDashboard renameMap ss) ! (row - 1) =
        Some (renameCell renameMap (dashboard ss ! (row - 1)))) \<and>
   (map_of renameMap (getText room) = Some newName \<longrightarrow>
      renameCell renameMap (Some room) =
        \<lparr>getText = newName, getLinkUrl = getLinkUrl room, bold = None\<rparr>) \<and>
   (map_of renameMap (getText room) = None \<longrightarrow> renameCell renameMap (Some room) = room) \<and>
   renameCell renameMap None = newRichTextValue"
proof -
  have "materialRow (renameInDashboard renameMap ss) = materialRow ss"
    and "sumRow (renameInDashboard renameMap ss) = sumRow ss"
    by (simp_all add: renameInDashboard_def setRichTextValues_def)
  moreover have "map_of renameMap (getText room) = Some newName \<longrightarrow>
      renameCell renameMap (Some room) =
        \<lparr>getText = newName, getLinkUrl = getLinkUrl room, bold = None\<rparr>"
    by (simp add: renameCell_def map_has_map_of)
  moreover have "map_of renameMap (getText room) = None \<longrightarrow> renameCell renameMap (Some room) = room"
    by (simp add: renameCell_def map_has_map_of)
  moreover have "renameCell renameMap None = newRichTextValue"
    by (simp add: renameCell_def)
  ultimately show ?thesis
    using length_renameInDashboard nth_renameInDashboard by blast
qed

theorem C4_relabel_cells_witness:
  "renameCell [(''Kitchen'', ''Den'')]
     (Some \<lparr>getText = ''Kitchen'', getLinkUrl = Some ''doc://123'', bold = Some False\<rparr>) =
     \<lparr>getText = ''Den'', getLinkUrl = Some ''doc://123'', bold = None\<rparr> \<and>
   renameCell [(''Kitchen'', ''Den'')]
     (Some \<lparr>getText = ''Bath'', getLinkUrl = Some ''doc://7'', bold = Some False\<rparr>) =
     \<lparr>getText = ''Bath'', getLinkUrl = Some ''doc://7'', bold = Some False\<rparr> \<and>
   materialRow threeRooms < 2 \<and> 2 < sumRow threeRooms \<and> 2 \<le> length (dashboard threeRooms) \<and>
   dashboard (renameInDashboard [(''Kitchen'', ''Den'')] threeRooms) ! (2 - 1) =
     Some \<lparr>getText = ''Den'', getLinkUrl = Some ''#gid=1'', bold = None\<rparr>"
  using C4_relabel_cells [of "[(''Kitchen'', ''Den'')]" threeRooms 2
      "\<lparr>getText = ''Kitchen'', getLinkUrl = Some ''doc://123'', bold = Some False\<rparr>" "''Den''"]
    C4_relabel_cells [of "[(''Kitchen'', ''Den'')]" threeRooms 2
      "\<lparr>getText = ''Bath'', getLinkUrl = Some ''doc://7'', bold = Some False\<rparr>" "''Den''"]
  by (simp add: threeRooms_def linkedRoom_def plainText_def renameCell_def map_has_def)

section \<open>Validation of new rooms\<close>

lemma unlines_append: "unlines (xs @ ys) = unlines xs @ unlines ys"
  by (simp add: unlines_def)

lemma unlines_empty: "unlines msgs = [] \<longleftrightarrow> msgs = []"
  by (cases msgs) (simp_all add: unlines_def newline_def)

lemma createRoomPairs_map_eq:
  "createRoomPairs_map newRooms sheetNames index error =
     (error @ unlines (spec_entriesErrors (index + 1) newRooms sheetNames), spec_normalized newRooms)"
proof (induction newRooms arbitrary: index error)
  case Nil
  show ?case by (simp add: unlines_def spec_normalized_def)
next
  case (Cons row newRooms)
  obtain inputRoomName template type where row: "row = (inputRoomName, template, type)"
    by (cases row)
  show ?case
    unfolding row
    by (simp add: Cons.IH Let_def spec_entryErrors_def unlines_append spec_normalized_def)
       (simp add: unlines_def)
qed

lemma names_normalized:
  "map fst (spec_normalized entries) = map (\<lambda>(name, template, kind). trim name) entries"
  by (simp add: spec_normalized_def case_prod_beta comp_def)

lemma createRoomPairs_refines:
  "createRoomPairs newRooms sheetNames =
     (if spec_validationErrors newRooms sheetNames = [] then Inr (spec_normalized newRooms)
      else Inl (Error (unlines (spec_validationErrors newRooms sheetNames))))"
proof -
  let ?dups = "duplicatesOf (map (\<lambda>(name, template, kind). trim name) newRooms)"
  have dup: "unlines (spec_duplicateErrors newRooms) =
               (if length ?dups > 0 then ''Rumnamn upprepas: '' @ join '', '' ?dups @ newline else [])"
    by (simp add: spec_duplicateErrors_def unlines_def Let_def)
  have "createRoomPairs newRooms sheetNames =
          (let error = unlines (spec_validationErrors newRooms sheetNames)
           in if error \<noteq> [] then Inl (Error error) else Inr (spec_normalized newRooms))"
    unfolding createRoomPairs_def createRoomPairs_map_eq spec_validationErrors_def unlines_append dup
    by (simp add: names_normalized Let_def)
  then show ?thesis
    by (simp add: Let_def unlines_empty)
qed

lemma spec_entriesErrors_nth:
  "i < length entries \<Longrightarrow>
     set (spec_entryErrors (n + i) (entries ! i) existingNames) \<subseteq>
       set (spec_entriesErrors n entries existingNames)"
proof (induction entries arbitrary: n i)
  case Nil
  then show ?case by simp
next
  case (Cons e entries)
  show ?case
  proof (cases i)
    case 0
    then show ?thesis by simp
  next
    case (Suc j)
    with Cons.prems have "j < length entries" by simp
    from Cons.IH [OF this, of "n + 1"] Suc show ?thesis by auto
  qed
qed

lemma showNat_1: "showNat 1 = ''1''"
  by code_simp

lemma showNat_2: "showNat 2 = ''2''"
  by code_simp

lemma showNat_3: "showNat 3 = ''3''"
  by code_simp

lemma showNat_4: "showNat 4 = ''4''"
  by code_simp

lemma showNat_Suc_0: "showNat (Suc 0) = ''1''"
  using showNat_1 by simp

lemma showNat_Suc_Suc_0: "showNat (Suc (Suc 0)) = ''2''"
  using showNat_2 by (simp add: numeral_2_eq_2)

lemma showNat_Suc_Suc_Suc_0: "showNat (Suc (Suc (Suc 0))) = ''3''"
  using showNat_3 by (simp add: numeral_3_eq_3)

lemmas showNat_digits =
  showNat_1 showNat_Suc_0 showNat_2 showNat_Suc_Suc_0 showNat_3 showNat_Suc_Suc_Suc_0 showNat_4

text \<open>
  Claim C5. \<^verbatim>\<open>createRoomPairs\<close> fails exactly when the batch has a problem, and then
  with a single error whose text is every message of the batch, one per line: for every
  entry the messages for a blank name, a blank template, a blank budgeting kind and a name
  that exists already, in the order of the entries, and then the line of the names repeated
  within the batch. No entry's messages and no duplicates line are left out.
\<close>

theorem C5_all_errors_collected:
  "createRoomPairs newRooms sheetNames =
     (if spec_validationErrors newRooms sheetNames = [] then Inr (spec_normalized newRooms)
      else Inl (Error (unlines (spec_validationErrors newRooms sheetNames)))) \<and>
   (i < length newRooms \<longrightarrow>
      set (spec_entryErrors (i + 1) (newRooms ! i) sheetNames) \<subseteq>
        set (spec_validationErrors newRooms sheetNames)) \<and>
   set (spec_duplicateErrors newRooms) \<subseteq> set (spec_validationErrors newRooms sheetNames)"
  using createRoomPairs_refines [of newRooms sheetNames]
    spec_entriesErrors_nth [of i newRooms 1 sheetNames]
  by (auto simp: spec_validationErrors_def add.commute)

theorem C5_all_errors_collected_witness:
  "1 < length [('' '', [], []), (''Kitchen'', ''Rum'', ''Avancerad''), (''Kitchen'', ''Rum'', [])] \<and>
   createRoomPairs
     [('' '', [], []), (''Kitchen'', ''Rum'', ''Avancerad''), (''Kitchen'', ''Rum'', [])]
     [''Kitchen''] =
     Inl (Error (unlines
       [''Namn saknas till rum 1'', ''Mall saknas till rum 1'',
        ''Budgeteringsalternativ saknas till rum 1'', ''Rum Kitchen finns redan'',
        ''Budgeteringsalternativ saknas till rum 3'', ''Rum Kitchen finns redan'',
        ''Rumnamn upprepas: Kitchen'']))"
  using C5_all_errors_collected
    [of "[('' '', [], []), (''Kitchen'', ''Rum'', ''Avancerad''), (''Kitchen'', ''Rum'', [])]"
        "[''Kitchen'']" 1]
  by (simp add: spec_validationErrors_def spec_entryErrors_def spec_duplicateErrors_def
      duplicatesOf_def indexOf_def findIndex_def trim_def isWhiteSpace_def showNat_digits)

lemma duplicatesOf_pair: "duplicatesOf [a, a] = [a]"
  by (simp add: duplicatesOf_def indexOf_def findIndex_def)

text \<open>
  Claim C8. Two otherwise valid entries with the same trimmed name \<open>A\<close>, validated
  against names that do not contain \<open>A\<close> (the empty list among them), fail with the one
  line that names \<open>A\<close> once as repeated; there is no message that the room exists.
\<close>

theorem C8_same_name_twice:
  "trim name1 = A \<Longrightarrow> trim name2 = A \<Longrightarrow> A \<noteq> [] \<Longrightarrow> A \<notin> set sheetNames \<Longrightarrow>
   template1 \<noteq> [] \<Longrightarrow> template2 \<noteq> [] \<Longrightarrow> kind1 \<noteq> [] \<Longrightarrow> kind2 \<noteq> [] \<Longrightarrow>
     spec_validationErrors [(name1, template1, kind1), (name2, template2, kind2)] sheetNames =
       [''Rumnamn upprepas: '' @ A] \<and>
     createRoomPairs [(name1, template1, kind1), (name2, template2, kind2)] sheetNames =
       Inl (Error (''Rumnamn upprepas: '' @ A @ newline))"
  unfolding createRoomPairs_refines
  by (simp add: spec_validationErrors_def spec_entryErrors_def spec_duplicateErrors_def
      duplicatesOf_pair unlines_def)

theorem C8_same_name_twice_witness:
  "trim ''A'' = ''A'' \<and> ''A'' \<noteq> [] \<and> ''A'' \<notin> set ([] :: string list) \<and>
   ''T1'' \<noteq> [] \<and> ''T2'' \<noteq> [] \<and> ''k1'' \<noteq> [] \<and>
   createRoomPairs [(''A'', ''T1'', ''k1''), (''A'', ''T2'', ''k1'')] [] =
     Inl (Error (''Rumnamn upprepas: A'' @ newline))"
  using C8_same_name_twice [of "''A''" "''A''" "''A''" "[]" "''T1''" "''T2''" "''k1''" "''k1''"]
  by (simp add: trim_def isWhiteSpace_def)

text \<open>
  The function of \<^verbatim>\<open>src/scripts.ts\<close>: on success the pairs carry the trimmed names in
  input order, one per entry; an entry whose trimmed name is blank makes the batch fail;
  the empty batch succeeds with the empty list.
\<close>

lemma createRoomPairs_trims:
  "(createRoomPairs newRooms sheetNames = Inr pairs \<longrightarrow>
      pairs = map (\<lambda>(name, template, kind). (trim name, template @ '' '' @ budgetingSuffix kind))
                newRooms) \<and>
   (i < length newRooms \<and> trim (fst (newRooms ! i)) = [] \<longrightarrow>
      (\<exists>msg. createRoomPairs newRooms sheetNames = Inl (Error msg))) \<and>
   createRoomPairs [] sheetNames = Inr []"
proof -
  have "spec_validationErrors newRooms sheetNames \<noteq> []"
    if "i < length newRooms" "trim (fst (newRooms ! i)) = []"
  proof -
    have "''Namn saknas till rum '' @ showNat (1 + i) \<in>
            set (spec_entryErrors (1 + i) (newRooms ! i) sheetNames)"
      using that(2) by (cases "newRooms ! i") (simp add: spec_entryErrors_def)
    then show ?thesis
      using spec_entriesErrors_nth [OF that(1), of 1 sheetNames]
      by (auto simp: spec_validationErrors_def)
  qed
  moreover have "createRoomPairs [] sheetNames = Inr []"
    by (simp add: createRoomPairs_refines spec_validationErrors_def spec_duplicateErrors_def
        duplicatesOf_def spec_normalized_def)
  ultimately show ?thesis
    by (auto simp: createRoomPairs_refines spec_normalized_def split: if_splits)
qed

text \<open>
  Claim C9. \<^verbatim>\<open>createRoomPairs\<close> of \<^verbatim>\<open>src/scripts.ts\<close> trims the names, as
  \<open>createRoomPairs_trims\<close> below shows. The \<^verbatim>\<open>createRoomPairs\<close> of
  \<^verbatim>\<open>src/unnamed/part_001\<close> does not: it accepts a name that collides with an existing
  sheet up to white space, accepts a name of blanks, and returns names untrimmed.
\<close>

theorem C9_part_001_does_not_trim:
  "createRoomPairs_part_001 [('' Kitchen '', ''Rum'', ''Avancerad'')] [''Kitchen''] =
     Inr [('' Kitchen '', ''Rum (avancerad)'')] \<and>
   createRoomPairs [('' Kitchen '', ''Rum'', ''Avancerad'')] [''Kitchen''] =
     Inl (Error (''Rum Kitchen finns redan'' @ newline)) \<and>
   createRoomPairs_part_001 [(''  '', ''Rum'', ''Avancerad'')] [] = Inr [(''  '', ''Rum (avancerad)'')] \<and>
   createRoomPairs [(''  '', ''Rum'', ''Avancerad'')] [] =
     Inl (Error (''Namn saknas till rum 1'' @ newline)) \<and>
   createRoomPairs_part_001 [('' Hall'', ''Rum'', ''Avancerad'')] [] =
     Inr [('' Hall'', ''Rum (avancerad)'')] \<and>
   createRoomPairs [('' Hall'', ''Rum'', ''Avancerad'')] [] = Inr [(''Hall'', ''Rum (avancerad)'')]"
  by (simp add: createRoomPairs_part_001_def createRoomPairs_def duplicatesOf_def indexOf_def
      findIndex_def trim_def isWhiteSpace_def showNat_digits budgetingSuffix_def BUDGETING_TYPES_def)

section \<open>Adding rooms\<close>

text \<open>
  Claim C6. When the batch read from the add range fails validation, \<^verbatim>\<open>addNewRooms\<close>
  only shows the alert with the error text: the sheets, the dashboard column, the boundary
  rows and the add range are what they were, so nothing is cloned, inserted, written or
  cleared.
\<close>

theorem C6_no_partial_application:
  "spec_validationErrors (nonBlankRows (addRooms ss)) (map getName (sheets ss)) \<noteq> [] \<Longrightarrow>
     addNewRooms ss =
       ss\<lparr>uiLog := uiLog ss @
            [Alert (unlines (spec_validationErrors (nonBlankRows (addRooms ss))
                               (map getName (sheets ss))))]\<rparr> \<and>
     sheets (addNewRooms ss) = sheets ss \<and>
     dashboard (addNewRooms ss) = dashboard ss \<and>
     addRooms (addNewRooms ss) = addRooms ss \<and>
     materialRow (addNewRooms ss) = materialRow ss \<and>
     sumRow (addNewRooms ss) = sumRow ss"
proof -
  assume errors: "spec_validationErrors (nonBlankRows (addRooms ss)) (map getName (sheets ss)) \<noteq> []"
  let ?text = "unlines (spec_validationErrors (nonBlankRows (addRooms ss)) (map getName (sheets ss)))"
  have "createRoomPairs (nonBlankRows (addRooms ss)) (map getName (sheets ss)) = Inl (Error ?text)"
    using errors by (simp add: createRoomPairs_refines)
  then have "addNewRooms ss = alert ?text ss"
    by (simp add: addNewRooms_def)
  then show ?thesis
    by (simp add: alert_def)
qed

theorem C6_no_partial_application_witness:
  "spec_validationErrors (nonBlankRows (addRooms invalidBatch)) (map getName (sheets invalidBatch)) =
     [''Mall saknas till rum 1'', ''Rum Kitchen finns redan''] \<and>
   addNewRooms invalidBatch =
     invalidBatch\<lparr>uiLog := [Alert (unlines [''Mall saknas till rum 1'',
                                                ''Rum Kitchen finns redan''])]\<rparr>"
  using C6_no_partial_application [of invalidBatch]
  by (simp add: invalidBatch_def threeRooms_def roomSheet_def nonBlankRows_def
      spec_validationErrors_def spec_entryErrors_def spec_duplicateErrors_def duplicatesOf_def
      indexOf_def findIndex_def trim_def isWhiteSpace_def showNat_digits)

text \<open>A batch that passes validation is applied: sheet, dashboard row, cleared input.\<close>

lemma addNewRooms_validBatch:
  "sheets (addNewRooms validBatch) = sheets validBatch @ [roomSheet ''Hall'' 4] \<and>
   dashboard (addNewRooms validBatch) =
     [plainText ''Material'', linkedRoom ''Kitchen'' ''#gid=1'', linkedRoom ''Den'' ''#gid=2'',
      linkedRoom ''Bath'' ''#gid=3'', linkedRoom ''Hall'' ''#gid=4'', plainText ''Summa''] \<and>
   sumRow (addNewRooms validBatch) = 6 \<and>
   addRooms (addNewRooms validBatch) = [([], [], []), ([], [], [])]"
  by (simp add: addNewRooms_def validBatch_def threeRooms_def roomSheet_def nonBlankRows_def
      createRoomPairs_def duplicatesOf_def indexOf_def findIndex_def trim_def isWhiteSpace_def
      budgetingSuffix_def BUDGETING_TYPES_def getSheetByName_def addNewRoomsToDashboard_def
      insertRows_def insertRowsAt_def setRichTextValues_def setRichTextValuesAt_def
      clearContent_def plainText_def linkedRoom_def newRichTextValue_def showNat_digits)

section \<open>Renaming rooms\<close>

lemma loop_cancel:
  "requestNewRoomNames_loop oldRoomNames sheetNames renameMap answered ui = None \<Longrightarrow>
   button \<noteq> OK \<Longrightarrow>
   \<exists>ui'. requestNewRoomNames_loop oldRoomNames sheetNames renameMap
            (answered @ (button, responseText) # rest) ui = Some (None, ui')"
proof (induction oldRoomNames sheetNames renameMap answered ui
    rule: requestNewRoomNames_loop.induct)
  case (1 sheetNames renameMap responses ui)
  then show ?case by simp
next
  case (2 oldName rest' sheetNames renameMap ui)
  then show ?case by simp
next
  case (3 oldName rest' sheetNames renameMap b t responses ui)
  then show ?case
    by (auto simp: Let_def split: if_splits)
qed

lemma renameRooms_cancelled:
  assumes "requestNewRoomNames (getSelectedRooms (configExistingRooms ss))
             (map getName (sheets ss)) responses = Some (None, ui)"
  shows "renameRooms responses ss = Some (ss\<lparr>uiLog := uiLog ss @ ui\<rparr>)"
proof -
  have "getSelectedRooms (configExistingRooms ss) \<noteq> []"
    using assms by (auto simp: requestNewRoomNames_def)
  then show ?thesis
    using assms by (simp add: renameRooms_def)
qed

text \<open>
  Claim C7. When a prompt of the name collection is open and the operator answers it with
  anything but OK, whatever was accepted before, \<^verbatim>\<open>renameRooms\<close> returns the spreadsheet
  with nothing but the prompts and alerts shown added: no sheet is renamed, no dashboard
  cell is changed and the selection is not unchecked.
\<close>

theorem C7_cancel_commits_nothing:
  "requestNewRoomNames (getSelectedRooms (configExistingRooms ss)) (map getName (sheets ss))
      answered = None \<Longrightarrow>
   button \<noteq> OK \<Longrightarrow>
   \<exists>ui. renameRooms (answered @ (button, responseText) # rest) ss =
          Some (ss\<lparr>uiLog := uiLog ss @ ui\<rparr>)"
  using loop_cancel [of "getSelectedRooms (configExistingRooms ss)" "map getName (sheets ss)"
      "[]" answered "[]" button responseText rest]
    renameRooms_cancelled [of ss "answered @ (button, responseText) # rest"]
  by (auto simp: requestNewRoomNames_def)

theorem C7_cancel_commits_nothing_witness:
  "requestNewRoomNames (getSelectedRooms (configExistingRooms threeRooms))
      (map getName (sheets threeRooms)) [(OK, ''Pantry'')] = None \<and>
   CANCEL \<noteq> OK \<and>
   (\<exists>ui. renameRooms ([(OK, ''Pantry'')] @ (CANCEL, []) # []) threeRooms =
          Some (threeRooms\<lparr>uiLog := uiLog threeRooms @ ui\<rparr>))"
  using C7_cancel_commits_nothing [of threeRooms "[(OK, ''Pantry'')]" CANCEL "[]" "[]"]
  by (simp add: threeRooms_def roomSheet_def getSelectedRooms_def requestNewRoomNames_def
      map_values_def trim_def isWhiteSpace_def)

text \<open>The renames are committed when every name has been accepted.\<close>

lemma renameRooms_threeRooms:
  "map_option (\<lambda>ss. (map getName (sheets ss), map cellValue (dashboard ss), configExistingRooms ss))
     (renameRooms [(OK, ''Pantry''), (OK, ''Bath''), (OK, '' Study ''), (OK, ''Sauna'')] threeRooms) =
   Some ([''Dashboard'', ''Pantry'', ''Study'', ''Sauna''],
         map Some [''Material'', ''Pantry'', ''Study'', ''Sauna'', ''Summa''],
         [(False, ''Kitchen''), (False, ''Den''), (False, ''Bath'')])"
  by (simp add: threeRooms_def roomSheet_def getSelectedRooms_def requestNewRoomNames_def
      map_values_def renameRooms_def renameInDashboard_def getRichTextValues_def
      setRichTextValues_def setRichTextValuesAt_def renameCell_def map_has_def uncheck_def
      cellValue_def plainText_def linkedRoom_def Let_def trim_def isWhiteSpace_def)

lemma map_values_update:
  "set (map_values (AList.update k v al)) \<subseteq> insert v (set (map_values al))"
  by (induction al) (auto simp: map_values_def)

lemma loop_accepted:
  "requestNewRoomNames_loop oldRoomNames sheetNames renameMap responses ui = Some (Some result, ui') \<Longrightarrow>
   \<forall>newName \<in> set (map_values renameMap). newName \<noteq> [] \<and> newName \<notin> set sheetNames \<Longrightarrow>
   \<forall>newName \<in> set (map_values result). newName \<noteq> [] \<and> newName \<notin> set sheetNames"
proof (induction oldRoomNames sheetNames renameMap responses ui
    rule: requestNewRoomNames_loop.induct)
  case (1 sheetNames renameMap responses ui)
  then show ?case by simp
next
  case (2 oldName rest sheetNames renameMap ui)
  then show ?case by simp
next
  case (3 oldName rest sheetNames renameMap button responseText responses ui)
  define new where "new = trim responseText"
  define ui1 where "ui1 = ui @ [Prompt (promptText oldName)]"
  note IH = "3.IH" [OF ui1_def _ new_def]
  from "3.prems"(1) have ok: "button = OK"
    by (auto simp: Let_def split: if_splits)
  show ?case
  proof (cases "new = []")
    case True
    with ok "3.prems" IH(1) show ?thesis
      by (simp add: new_def ui1_def)
  next
    case ne: False
    show ?thesis
    proof (cases "new \<in> set sheetNames")
      case True
      with ok ne "3.prems" IH(2) show ?thesis
        by (simp add: new_def ui1_def)
    next
      case fresh: False
      show ?thesis
      proof (cases "new \<in> set (map_values renameMap)")
        case True
        with ok ne fresh "3.prems" IH(3) show ?thesis
          by (simp add: new_def ui1_def)
      next
        case False
        have "\<forall>newName \<in> set (map_values (AList.update oldName new renameMap)).
                 newName \<noteq> [] \<and> newName \<notin> set sheetNames"
          using ne fresh "3.prems"(2) map_values_update [of oldName new renameMap] by blast
        with ok ne fresh False "3.prems"(1) IH(4) show ?thesis
          by (simp add: new_def ui1_def)
      qed
    qed
  qed
qed

lemma requestNewRoomNames_threeRooms:
  "map_option fst
     (requestNewRoomNames [''Kitchen'', ''Den'', ''Bath''] [''Dashboard'', ''Kitchen'', ''Den'', ''Bath'']
        [(OK, ''Pantry''), (OK, ''Bath''), (OK, '' Study ''), (OK, ''Sauna'')]) =
   Some (Some [(''Kitchen'', ''Pantry''), (''Den'', ''Study''), (''Bath'', ''Sauna'')])"
  by (simp add: requestNewRoomNames_def map_values_def Let_def trim_def isWhiteSpace_def)

text \<open>
  Claim C10, as stated, fails where a selected room has no sheet: its name is then not among
  the sheet names captured before prompting, so the room's own current name is accepted as
  its new name. The selected room Ghost has no sheet, and the answer Ghost is accepted.
\<close>

theorem C10_existing_name_counterexample:
  "getSelectedRooms (configExistingRooms ghostRoom) = [''Ghost''] \<and>
   map getName (sheets ghostRoom) = [''Dashboard'', ''Kitchen'', ''Den'', ''Bath''] \<and>
   map_option fst
     (requestNewRoomNames [''Ghost''] [''Dashboard'', ''Kitchen'', ''Den'', ''Bath'']
        [(OK, ''Ghost'')]) =
   Some (Some [(''Ghost'', ''Ghost'')])"
  by (simp add: ghostRoom_def threeRooms_def roomSheet_def getSelectedRooms_def
      requestNewRoomNames_def map_values_def Let_def trim_def isWhiteSpace_def)

text \<open>
  Claim C10, amended. A proposed name that, trimmed, equals a sheet name captured before
  prompting is rejected with the alert that the room exists, and the same room is asked
  again with the map unchanged. So every accepted new name is non-empty and no captured
  sheet name: no room that has a sheet is mapped to its own current name, and no room is
  mapped to the name of a selected room that has a sheet.
\<close>

theorem C10_existing_name_rejected:
  "(trim responseText \<noteq> [] \<and> trim responseText \<in> set sheetNames \<longrightarrow>
      requestNewRoomNames_loop (oldName # rest) sheetNames renameMap
          ((OK, responseText) # responses) ui =
        requestNewRoomNames_loop (oldName # rest) sheetNames renameMap responses
          (ui @ [Prompt (promptText oldName),
                 Alert (''Rum '' @ trim responseText @ '' finns redan'')])) \<and>
   (requestNewRoomNames oldRoomNames sheetNames answers = Some (Some result, shown) \<longrightarrow>
      (\<forall>(old, new) \<in> set result.
          new \<noteq> [] \<and> new \<notin> set sheetNames \<and>
          (old \<in> set sheetNames \<longrightarrow> new \<noteq> old) \<and>
          (\<forall>other \<in> set oldRoomNames. other \<in> set sheetNames \<longrightarrow> new \<noteq> other)))"
proof -
  have "\<forall>(old, new) \<in> set result.
          new \<noteq> [] \<and> new \<notin> set sheetNames \<and>
          (old \<in> set sheetNames \<longrightarrow> new \<noteq> old) \<and>
          (\<forall>other \<in> set oldRoomNames. other \<in> set sheetNames \<longrightarrow> new \<noteq> other)"
    if "requestNewRoomNames oldRoomNames sheetNames answers = Some (Some result, shown)"
  proof -
    have "\<forall>newName \<in> set (map_values result). newName \<noteq> [] \<and> newName \<notin> set sheetNames"
      using that loop_accepted [of oldRoomNames sheetNames "[]" answers "[]" result shown]
      by (simp add: requestNewRoomNames_def map_values_def)
    then show ?thesis
      by (fastforce simp: map_values_def)
  qed
  then show ?thesis
    by (simp add: Let_def)
qed

theorem C10_existing_name_rejected_witness:
  "trim ''Bath'' \<noteq> [] \<and> trim ''Bath'' \<in> set [''Dashboard'', ''Kitchen'', ''Den'', ''Bath''] \<and>
   map_option fst
     (requestNewRoomNames [''Kitchen'', ''Den'', ''Bath''] [''Dashboard'', ''Kitchen'', ''Den'', ''Bath'']
        [(OK, ''Pantry''), (OK, ''Bath''), (OK, '' Study ''), (OK, ''Sauna'')]) =
     Some (Some [(''Kitchen'', ''Pantry''), (''Den'', ''Study''), (''Bath'', ''Sauna'')]) \<and>
   ''Pantry'' \<notin> set [''Dashboard'', ''Kitchen'', ''Den'', ''Bath''] \<and>
   ''Study'' \<notin> set [''Dashboard'', ''Kitchen'', ''Den'', ''Bath''] \<and>
   ''Sauna'' \<notin> set [''Dashboard'', ''Kitchen'', ''Den'', ''Bath''] \<and>
   requestNewRoomNames_loop [''Den'', ''Bath''] [''Dashboard'', ''Kitchen'', ''Den'', ''Bath'']
       [(''Kitchen'', ''Pantry'')] [(OK, ''Bath''), (OK, '' Study '')] [] =
     requestNewRoomNames_loop [''Den'', ''Bath''] [''Dashboard'', ''Kitchen'', ''Den'', ''Bath'']
       [(''Kitchen'', ''Pantry'')] [(OK, '' Study '')]
       [Prompt (promptText ''Den''), Alert ''Rum Bath finns redan'']"
proof -
  from requestNewRoomNames_threeRooms obtain shown where
    r: "requestNewRoomNames [''Kitchen'', ''Den'', ''Bath''] [''Dashboard'', ''Kitchen'', ''Den'', ''Bath'']
          [(OK, ''Pantry''), (OK, ''Bath''), (OK, '' Study ''), (OK, ''Sauna'')] =
        Some (Some [(''Kitchen'', ''Pantry''), (''Den'', ''Study''), (''Bath'', ''Sauna'')], shown)"
    by auto
  show ?thesis
    using C10_existing_name_rejected
      [of "''Bath''" "[''Dashboard'', ''Kitchen'', ''Den'', ''Bath'']" "''Den''" "[''Bath'']"
          "[(''Kitchen'', ''Pantry'')]" "[(OK, '' Study '')]" "[]"
          "[''Kitchen'', ''Den'', ''Bath'']"
          "[(OK, ''Pantry''), (OK, ''Bath''), (OK, '' Study ''), (OK, ''Sauna'')]"
          "[(''Kitchen'', ''Pantry''), (''Den'', ''Study''), (''Bath'', ''Sauna'')]" shown]
      r requestNewRoomNames_threeRooms
    by (simp add: trim_def isWhiteSpace_def)
qed

end
